theory Spec2Isabelle
  imports Main
begin

section \<open>The Kubernetes scanner of defsec: data model\<close>

text \<open>
  The development embeds \<^verbatim>\<open>pkg/scanners/kubernetes/scanner.go\<close>. The scanner
  coordinates collaborators that live in other packages: the document parser, the rego
  evaluation engine, the in-memory filesystem and the standard library. Their values are
  modelled as the terms that the scanner builds and passes around, and their decisions
  (what a parse returns, whether a policy load fails, what an evaluation returns) are the
  fields of an environment record \<open>Env\<close> over which every theorem is universally
  quantified.
\<close>

subsection \<open>Values handed to and received from the collaborators\<close>

text \<open>A Go \<^verbatim>\<open>error\<close> value; \<^verbatim>\<open>nil\<close> is the absence of one.\<close>

datatype error = Error string

type_synonym Context = nat

type_synonym Writer = nat

type_synonym Framework = string

type_synonym Document = string

text \<open>
  An \<^verbatim>\<open>io.Reader\<close> is represented by what \<^verbatim>\<open>io.ReadAll\<close> obtains from it:
  all of its bytes, or an error.
\<close>

datatype Reader = BytesReader string | FailingReader error

fun io_ReadAll :: "Reader \<Rightarrow> error + string" where
  "io_ReadAll (BytesReader data) = Inr data"
| "io_ReadAll (FailingReader err) = Inl err"

text \<open>
  The in-memory filesystem of \<^verbatim>\<open>memoryfs\<close> is represented by the operations that
  were performed on it since \<^verbatim>\<open>memoryfs.New()\<close>, oldest first; a filesystem handle
  \<^verbatim>\<open>fs.FS\<close> is either such an in-memory filesystem or a filesystem of the caller.
\<close>

datatype MemOp = OpMkdirAll string nat | OpWriteFile string string nat

datatype FS = HostFS nat | MemFS "MemOp list"

definition memoryfs_New :: "MemOp list" where
  "memoryfs_New = []"

text \<open>The parser and the options that construct it.\<close>

datatype ParserOption = ParserWithSkipRequiredCheck bool

datatype Parser = parser_New "ParserOption list"

text \<open>
  \<^verbatim>\<open>debug.Logger\<close>: the zero value of the struct, or the logger built by
  \<^verbatim>\<open>debug.New(writer, parts...)\<close>.
\<close>

datatype Logger = ZeroLogger | debug_New Writer "string list"

text \<open>
  A \<^verbatim>\<open>options.ScannerOption\<close> is a function that calls one setter of the
  \<^verbatim>\<open>ConfigurableScanner\<close> it is applied to. It is represented by the setter and
  its argument, and applied by \<open>apply_option\<close> below.
\<close>

datatype ScannerOption =
    ScannerWithSpec string
  | ScannerWithRegoOnly bool
  | ScannerWithFrameworks "Framework list"
  | ScannerWithEmbeddedPolicies bool
  | ScannerWithPolicyReader "Reader list"
  | ScannerWithSkipRequiredCheck bool
  | ScannerWithDebug Writer
  | ScannerWithTrace Writer
  | ScannerWithPerResultTracing bool
  | ScannerWithPolicyDirs "string list"
  | ScannerWithDataDirs "string list"
  | ScannerWithPolicyNamespaces "string list"
  | ScannerWithPolicyFilesystem FS
  | ScannerWithDataFilesystem FS

datatype SourceKind = SourceKubernetes

text \<open>
  The evaluation engine \<^verbatim>\<open>rego.Scanner\<close>: its identity (the allocation that
  \<^verbatim>\<open>rego.NewScanner\<close> made), the arguments of its construction, the parent debug
  logger given to it, and the arguments of the policy load that succeeded on it.
\<close>

record RegoScanner =
  rid :: nat
  sourceKind :: SourceKind
  regoOptions :: "ScannerOption list"
  parentDebug :: "Logger option"
  loaded :: "(bool \<times> FS \<times> string list \<times> Reader list) option"

record Input =
  Path :: string
  FS :: FS
  Contents :: Document

text \<open>
  Modelled from the spec: \<^verbatim>\<open>scan.Result\<close> is in package \<^verbatim>\<open>pkg/scan\<close>, which
  is not among the sources. A finding carries a status, a rule identifier and, after
  orchestration, the provenance fields: source label, filesystem reference and the
  mixed-filesystem flag.
\<close>

datatype Status = StatusPassed | StatusFailed | StatusIgnored

record Result =
  status :: Status
  ruleID :: string
  source :: string
  filesystem :: "FS option"
  mixed :: bool

text \<open>
  Modelled from the spec: \<^verbatim>\<open>scan.Results.SetSourceAndFilesystem\<close> is in package
  \<^verbatim>\<open>pkg/scan\<close>, which is not among the sources. The annotation sets the three
  provenance fields of every finding and leaves its status and rule identifier alone.
\<close>

definition SetSourceAndFilesystem :: "string \<Rightarrow> FS \<Rightarrow> bool \<Rightarrow> Result list \<Rightarrow> Result list" where
  "SetSourceAndFilesystem src f m results =
     map (\<lambda>r. r\<lparr>source := src, filesystem := Some f, mixed := m\<rparr>) results"

subsection \<open>The scanner\<close>

text \<open>
  The struct \<^verbatim>\<open>Scanner\<close>. The embedded mutex has no field here: the model runs one
  call at a time. Pointer fields are options, \<^verbatim>\<open>nil\<close> being \<open>None\<close>; a
  \<^verbatim>\<open>nil\<close> slice is the empty list.
\<close>

record Scanner =
  debug :: Logger
  options :: "ScannerOption list"
  policyDirs :: "string list"
  policyReaders :: "Reader list"
  regoScanner :: "RegoScanner option"
  parser :: "Parser option"
  skipRequired :: bool
  loadEmbedded :: bool
  frameworks :: "Framework list"
  spec :: string

subsection \<open>The world outside the scanner\<close>

text \<open>
  Every call that the scanner makes on a collaborator is recorded, in order, in the trace
  of the world; \<open>allocated\<close> counts the engines that \<^verbatim>\<open>rego.NewScanner\<close> has
  allocated, and gives the next one its identity.
\<close>

datatype Event =
    EvParseFS "Parser option" Context FS string
  | EvNewScanner nat SourceKind "ScannerOption list"
  | EvSetParentDebugLogger nat Logger
  | EvLoadPolicies nat bool FS "string list" "Reader list"
  | EvDebugLog Logger string nat
  | EvScanInput nat Context "Input list"
  | EvSetSourceAndFilesystem string FS bool

record World =
  trace :: "Event list"
  allocated :: nat

definition emit :: "Event \<Rightarrow> World \<Rightarrow> World" where
  "emit e w = w\<lparr>trace := trace w @ [e]\<rparr>"

text \<open>
  The decisions of the collaborators. \<open>parseFS\<close> returns the mapping from path to
  documents as the list of its entries in the order in which the \<^verbatim>\<open>range\<close> loop of
  \<^verbatim>\<open>ScanFS\<close> visits them.
\<close>

record Env =
  parseFS :: "Parser option \<Rightarrow> Context \<Rightarrow> FS \<Rightarrow> string \<Rightarrow> error + (string \<times> Document list) list"
  loadPolicies :: "bool \<Rightarrow> FS \<Rightarrow> string list \<Rightarrow> Reader list \<Rightarrow> error option"
  scanInput :: "RegoScanner \<Rightarrow> Context \<Rightarrow> Input list \<Rightarrow> error + Result list"
  filepath_Base :: "string \<Rightarrow> string"
  mkdirAllFails :: "MemOp list \<Rightarrow> string \<Rightarrow> nat \<Rightarrow> error option"
  writeFileFails :: "MemOp list \<Rightarrow> string \<Rightarrow> string \<Rightarrow> nat \<Rightarrow> error option"

definition MkdirAll :: "Env \<Rightarrow> MemOp list \<Rightarrow> string \<Rightarrow> nat \<Rightarrow> error + MemOp list" where
  "MkdirAll env memfs path perm =
     (case mkdirAllFails env memfs path perm of
        Some err \<Rightarrow> Inl err
      | None \<Rightarrow> Inr (memfs @ [OpMkdirAll path perm]))"

definition WriteFile :: "Env \<Rightarrow> MemOp list \<Rightarrow> string \<Rightarrow> string \<Rightarrow> nat \<Rightarrow> error + MemOp list" where
  "WriteFile env memfs path data perm =
     (case writeFileFails env memfs path data perm of
        Some err \<Rightarrow> Inl err
      | None \<Rightarrow> Inr (memfs @ [OpWriteFile path data perm]))"

section \<open>The operations of the scanner\<close>

subsection \<open>Setters\<close>

definition SetSpec :: "string \<Rightarrow> Scanner \<Rightarrow> Scanner" where
  "SetSpec sp s = s\<lparr>spec := sp\<rparr>"

definition SetRegoOnly :: "bool \<Rightarrow> Scanner \<Rightarrow> Scanner" where
  "SetRegoOnly b s = s"

definition SetFrameworks :: "Framework list \<Rightarrow> Scanner \<Rightarrow> Scanner" where
  "SetFrameworks fws s = s\<lparr>frameworks := fws\<rparr>"

definition SetUseEmbeddedPolicies :: "bool \<Rightarrow> Scanner \<Rightarrow> Scanner" where
  "SetUseEmbeddedPolicies b s = s\<lparr>loadEmbedded := b\<rparr>"

definition SetPolicyReaders :: "Reader list \<Rightarrow> Scanner \<Rightarrow> Scanner" where
  "SetPolicyReaders readers s = s\<lparr>policyReaders := readers\<rparr>"

definition SetSkipRequiredCheck :: "bool \<Rightarrow> Scanner \<Rightarrow> Scanner" where
  "SetSkipRequiredCheck skip s = s\<lparr>skipRequired := skip\<rparr>"

definition SetDebugWriter :: "Writer \<Rightarrow> Scanner \<Rightarrow> Scanner" where
  "SetDebugWriter writer s = s\<lparr>debug := debug_New writer [''kubernetes'', ''scanner'']\<rparr>"

definition SetTraceWriter :: "Writer \<Rightarrow> Scanner \<Rightarrow> Scanner" where
  "SetTraceWriter writer s = s"

definition SetPerResultTracingEnabled :: "bool \<Rightarrow> Scanner \<Rightarrow> Scanner" where
  "SetPerResultTracingEnabled b s = s"

definition SetPolicyDirs :: "string list \<Rightarrow> Scanner \<Rightarrow> Scanner" where
  "SetPolicyDirs dirs s = s\<lparr>policyDirs := dirs\<rparr>"

definition SetDataDirs :: "string list \<Rightarrow> Scanner \<Rightarrow> Scanner" where
  "SetDataDirs dirs s = s"

definition SetPolicyNamespaces :: "string list \<Rightarrow> Scanner \<Rightarrow> Scanner" where
  "SetPolicyNamespaces nss s = s"

definition SetPolicyFilesystem :: "FS \<Rightarrow> Scanner \<Rightarrow> Scanner" where
  "SetPolicyFilesystem f s = s"

definition SetDataFilesystem :: "FS \<Rightarrow> Scanner \<Rightarrow> Scanner" where
  "SetDataFilesystem f s = s"

text \<open>\<^verbatim>\<open>opt(s)\<close>: the option calls its setter on the scanner.\<close>

fun apply_option :: "ScannerOption \<Rightarrow> Scanner \<Rightarrow> Scanner" where
  "apply_option (ScannerWithSpec sp) s = SetSpec sp s"
| "apply_option (ScannerWithRegoOnly b) s = SetRegoOnly b s"
| "apply_option (ScannerWithFrameworks fws) s = SetFrameworks fws s"
| "apply_option (ScannerWithEmbeddedPolicies b) s = SetUseEmbeddedPolicies b s"
| "apply_option (ScannerWithPolicyReader readers) s = SetPolicyReaders readers s"
| "apply_option (ScannerWithSkipRequiredCheck skip) s = SetSkipRequiredCheck skip s"
| "apply_option (ScannerWithDebug writer) s = SetDebugWriter writer s"
| "apply_option (ScannerWithTrace writer) s = SetTraceWriter writer s"
| "apply_option (ScannerWithPerResultTracing b) s = SetPerResultTracingEnabled b s"
| "apply_option (ScannerWithPolicyDirs dirs) s = SetPolicyDirs dirs s"
| "apply_option (ScannerWithDataDirs dirs) s = SetDataDirs dirs s"
| "apply_option (ScannerWithPolicyNamespaces nss) s = SetPolicyNamespaces nss s"
| "apply_option (ScannerWithPolicyFilesystem f) s = SetPolicyFilesystem f s"
| "apply_option (ScannerWithDataFilesystem f) s = SetDataFilesystem f s"

subsection \<open>Construction\<close>

text \<open>The struct literal \<^verbatim>\<open>&Scanner{options: opts}\<close>: every other field is zero.\<close>

definition zeroScanner :: "ScannerOption list \<Rightarrow> Scanner" where
  "zeroScanner opts =
     \<lparr>debug = ZeroLogger, options = opts, policyDirs = [], policyReaders = [],
      regoScanner = None, parser = None, skipRequired = False, loadEmbedded = False,
      frameworks = [], spec = []\<rparr>"

definition NewScanner :: "ScannerOption list \<Rightarrow> Scanner" where
  "NewScanner opts =
     (let s = foldl (\<lambda>s opt. apply_option opt s) (zeroScanner opts) opts
      in s\<lparr>parser := Some (parser_New [ParserWithSkipRequiredCheck (skipRequired s)])\<rparr>)"

definition Name :: "Scanner \<Rightarrow> string" where
  "Name s = ''Kubernetes''"

subsection \<open>The evaluation engine provider\<close>

text \<open>
  \<^verbatim>\<open>rego.NewScanner(source, options...)\<close> allocates an engine; the world counts
  the allocation.
\<close>

definition rego_NewScanner :: "SourceKind \<Rightarrow> ScannerOption list \<Rightarrow> World \<Rightarrow> RegoScanner \<times> World" where
  "rego_NewScanner src opts w =
     (\<lparr>rid = allocated w, sourceKind = src, regoOptions = opts, parentDebug = None, loaded = None\<rparr>,
      emit (EvNewScanner (allocated w) src opts) (w\<lparr>allocated := Suc (allocated w)\<rparr>))"

definition SetParentDebugLogger :: "Logger \<Rightarrow> RegoScanner \<Rightarrow> World \<Rightarrow> RegoScanner \<times> World" where
  "SetParentDebugLogger l r w =
     (r\<lparr>parentDebug := Some l\<rparr>, emit (EvSetParentDebugLogger (rid r) l) w)"

definition LoadPolicies ::
  "Env \<Rightarrow> bool \<Rightarrow> FS \<Rightarrow> string list \<Rightarrow> Reader list \<Rightarrow> RegoScanner \<Rightarrow> World \<Rightarrow> (error + RegoScanner) \<times> World" where
  "LoadPolicies env emb srcFS dirs readers r w =
     (case loadPolicies env emb srcFS dirs readers of
        Some err \<Rightarrow> Inl err
      | None \<Rightarrow> Inr (r\<lparr>loaded := Some (emb, srcFS, dirs, readers)\<rparr>),
      emit (EvLoadPolicies (rid r) emb srcFS dirs readers) w)"

definition initRegoScanner ::
  "Env \<Rightarrow> FS \<Rightarrow> Scanner \<Rightarrow> World \<Rightarrow> (error + RegoScanner) \<times> Scanner \<times> World" where
  "initRegoScanner env srcFS s w =
     (case regoScanner s of
        Some cached \<Rightarrow> (Inr cached, s, w)
      | None \<Rightarrow>
          (let (r0, w1) = rego_NewScanner SourceKubernetes (options s) w;
               (r1, w2) = SetParentDebugLogger (debug s) r0 w1;
               (res, w3) = LoadPolicies env (loadEmbedded s) srcFS (policyDirs s) (policyReaders s) r1 w2
           in case res of
                Inl err \<Rightarrow> (Inl err, s, w3)
              | Inr r2 \<Rightarrow> (Inr r2, s\<lparr>regoScanner := Some r2\<rparr>, w3)))"

subsection \<open>The input adapter and the scan entry points\<close>

text \<open>
  The two nested \<^verbatim>\<open>range\<close> loops of \<^verbatim>\<open>ScanFS\<close>, each \<^verbatim>\<open>append\<close>ing to
  \<^verbatim>\<open>inputs\<close>.
\<close>

definition append_inputs :: "FS \<Rightarrow> string \<Rightarrow> Input list \<Rightarrow> Document list \<Rightarrow> Input list" where
  "append_inputs target path inputs k8sFiles =
     foldl (\<lambda>inputs content. inputs @ [\<lparr>Path = path, FS = target, Contents = content\<rparr>])
       inputs k8sFiles"

definition build_inputs :: "FS \<Rightarrow> (string \<times> Document list) list \<Rightarrow> Input list" where
  "build_inputs target k8sFilesets =
     foldl (\<lambda>inputs (path, k8sFiles). append_inputs target path inputs k8sFiles) [] k8sFilesets"

definition ScanFS ::
  "Env \<Rightarrow> Context \<Rightarrow> FS \<Rightarrow> string \<Rightarrow> Scanner \<Rightarrow> World \<Rightarrow> (error + Result list) \<times> Scanner \<times> World" where
  "ScanFS env ctx target dir s w =
     (let w1 = emit (EvParseFS (parser s) ctx target dir) w
      in case parseFS env (parser s) ctx target dir of
           Inl err \<Rightarrow> (Inl err, s, w1)
         | Inr k8sFilesets \<Rightarrow>
             if length k8sFilesets = 0 then (Inr [], s, w1)
             else
               (let inputs = build_inputs target k8sFilesets;
                    (eng, s2, w2) = initRegoScanner env target s w1
                in case eng of
                     Inl err \<Rightarrow> (Inl err, s2, w2)
                   | Inr rs \<Rightarrow>
                       (let w3 = emit (EvDebugLog (debug s2) ''Scanning %d files...'' (length inputs)) w2;
                            w4 = emit (EvScanInput (rid rs) ctx inputs) w3
                        in case scanInput env rs ctx inputs of
                             Inl err \<Rightarrow> (Inl err, s2, w4)
                           | Inr results \<Rightarrow>
                               (Inr (SetSourceAndFilesystem [] target False results), s2,
                                emit (EvSetSourceAndFilesystem [] target False) w4))))"

definition ScanReader ::
  "Env \<Rightarrow> Context \<Rightarrow> string \<Rightarrow> Reader \<Rightarrow> Scanner \<Rightarrow> World \<Rightarrow> (error + Result list) \<times> Scanner \<times> World" where
  "ScanReader env ctx filename reader s w =
     (case MkdirAll env memoryfs_New (filepath_Base env filename) 448 of
        Inl err \<Rightarrow> (Inl err, s, w)
      | Inr memfs1 \<Rightarrow>
          (case io_ReadAll reader of
             Inl err \<Rightarrow> (Inl err, s, w)
           | Inr data \<Rightarrow>
               (case WriteFile env memfs1 filename data 420 of
                  Inl err \<Rightarrow> (Inl err, s, w)
                | Inr memfs2 \<Rightarrow> ScanFS env ctx (MemFS memfs2) ''.'' s w)))"

section \<open>Observing a run\<close>

text \<open>
  The events that a call added to the trace: those of the world after the call beyond the
  ones of the world before it.
\<close>

definition new_events :: "World \<Rightarrow> World \<Rightarrow> Event list" where
  "new_events w w' = drop (length (trace w)) (trace w')"

fun isLoadPolicies :: "Event \<Rightarrow> bool" where
  "isLoadPolicies (EvLoadPolicies r emb f dirs readers) = True"
| "isLoadPolicies e = False"

fun isNewScanner :: "Event \<Rightarrow> bool" where
  "isNewScanner (EvNewScanner r src opts) = True"
| "isNewScanner e = False"

fun isScanInput :: "Event \<Rightarrow> bool" where
  "isScanInput (EvScanInput r ctx inputs) = True"
| "isScanInput e = False"

fun isSetSourceAndFilesystem :: "Event \<Rightarrow> bool" where
  "isSetSourceAndFilesystem (EvSetSourceAndFilesystem src f m) = True"
| "isSetSourceAndFilesystem e = False"

text \<open>
  A caller of the scanner: it applies a setter, or calls one of the methods that reach the
  engine. Each call comes with the environment that answers during it, so that policy
  sources and filesystems may change between calls.
\<close>

datatype Call =
    CallSetter ScannerOption
  | CallInitRegoScanner FS
  | CallScanFS Context FS string
  | CallScanReader Context string Reader

fun run_call :: "Scanner \<times> World \<Rightarrow> Env \<times> Call \<Rightarrow> Scanner \<times> World" where
  "run_call (s, w) (env, CallSetter opt) = (apply_option opt s, w)"
| "run_call (s, w) (env, CallInitRegoScanner f) = snd (initRegoScanner env f s w)"
| "run_call (s, w) (env, CallScanFS ctx f dir) = snd (ScanFS env ctx f dir s w)"
| "run_call (s, w) (env, CallScanReader ctx filename reader) = snd (ScanReader env ctx filename reader s w)"

definition run_calls :: "(Env \<times> Call) list \<Rightarrow> Scanner \<times> World \<Rightarrow> Scanner \<times> World" where
  "run_calls calls sw = foldl run_call sw calls"

text \<open>
  The flag that the construction options leave in \<^verbatim>\<open>skipRequired\<close>: that of the
  last option setting it, \<^verbatim>\<open>false\<close> when there is none.
\<close>

fun skip_of_options :: "bool \<Rightarrow> ScannerOption list \<Rightarrow> bool" where
  "skip_of_options b [] = b"
| "skip_of_options b (ScannerWithSkipRequiredCheck skip # opts) = skip_of_options skip opts"
| "skip_of_options b (opt # opts) = skip_of_options b opts"

text \<open>
  The stream entry point in the words of the specification: the stream is read, its bytes
  are materialised as the in-memory filesystem holding the one file, and the filesystem
  entry point scans that filesystem from \<^verbatim>\<open>.\<close>
\<close>

definition single_file_fs :: "Env \<Rightarrow> string \<Rightarrow> string \<Rightarrow> error + FS" where
  "single_file_fs env filename data =
     (case MkdirAll env memoryfs_New (filepath_Base env filename) 448 of
        Inl err \<Rightarrow> Inl err
      | Inr memfs1 \<Rightarrow>
          (case WriteFile env memfs1 filename data 420 of
             Inl err \<Rightarrow> Inl err
           | Inr memfs2 \<Rightarrow> Inr (MemFS memfs2)))"

definition scanFromStream_spec ::
  "Env \<Rightarrow> Context \<Rightarrow> string \<Rightarrow> Reader \<Rightarrow> Scanner \<Rightarrow> World \<Rightarrow> (error + Result list) \<times> Scanner \<times> World" where
  "scanFromStream_spec env ctx filename reader s w =
     (case io_ReadAll reader of
        Inl err \<Rightarrow> (Inl err, s, w)
      | Inr data \<Rightarrow>
          (case single_file_fs env filename data of
             Inl err \<Rightarrow> (Inl err, s, w)
           | Inr memfs \<Rightarrow> ScanFS env ctx memfs ''.'' s w))"

section \<open>A concrete environment\<close>

text \<open>
  A parser that finds two manifests on host filesystem 1, nothing on host filesystem 0,
  fails on host filesystem 2, finds a path without documents on the other host
  filesystems, and finds the written files of an in-memory filesystem; a policy loader
  that rejects the directory \<^verbatim>\<open>bad\<close>; an engine that reports one failed finding per
  input.
\<close>

fun written_files :: "MemOp list \<Rightarrow> (string \<times> Document list) list" where
  "written_files [] = []"
| "written_files (OpWriteFile path data perm # ops) = (path, [data]) # written_files ops"
| "written_files (OpMkdirAll path perm # ops) = written_files ops"

fun demo_parseFS :: "Parser option \<Rightarrow> Context \<Rightarrow> FS \<Rightarrow> string \<Rightarrow> error + (string \<times> Document list) list" where
  "demo_parseFS p ctx (MemFS ops) dir = Inr (written_files ops)"
| "demo_parseFS p ctx (HostFS n) dir =
     (if n = 0 then Inr []
      else if n = 1 then Inr [(''a.yaml'', [''pod'', ''svc'']), (''b.yaml'', [''job''])]
      else if n = 2 then Inl (Error ''parse'')
      else Inr [(''e.yaml'', [])])"

definition demo_finding :: "Input \<Rightarrow> Result" where
  "demo_finding i =
     \<lparr>status = StatusFailed, ruleID = ''KSV001'', source = Path i, filesystem = None, mixed = True\<rparr>"

definition demo_env :: Env where
  "demo_env =
     \<lparr>parseFS = demo_parseFS,
      loadPolicies = (\<lambda>emb f dirs readers. if ''bad'' \<in> set dirs then Some (Error ''load'') else None),
      scanInput = (\<lambda>r ctx inputs. Inr (map demo_finding inputs)),
      filepath_Base = (\<lambda>path. path),
      mkdirAllFails = (\<lambda>memfs path perm. if path = [] then Some (Error ''mkdir'') else None),
      writeFileFails = (\<lambda>memfs path data perm. None)\<rparr>"

definition demo_world :: World where
  "demo_world = \<lparr>trace = [], allocated = 0\<rparr>"

section \<open>Calls that leave the engine alone\<close>

text \<open>
  Between the worlds \<open>w\<close> and \<open>w'\<close> the trace was only extended, no engine was
  allocated and no policy load was invoked.
\<close>

definition quiet :: "World \<Rightarrow> World \<Rightarrow> bool" where
  "quiet w w' \<longleftrightarrow>
     take (length (trace w)) (trace w') = trace w
     \<and> filter isLoadPolicies (new_events w w') = []
     \<and> filter isNewScanner (new_events w w') = []
     \<and> allocated w' = allocated w"

text \<open>The setters that a caller applies in a row.\<close>

definition apply_options :: "ScannerOption list \<Rightarrow> Scanner \<Rightarrow> Scanner" where
  "apply_options opts s = foldl (\<lambda>s opt. apply_option opt s) s opts"

section \<open>What a construction of the engine leaves behind\<close>

text \<open>
  The engine that \<^verbatim>\<open>initRegoScanner\<close> has built when it reaches
  \<^verbatim>\<open>LoadPolicies\<close>, the three calls on the engine package that a construction
  makes, and the world after them.
\<close>

definition fresh_engine :: "Scanner \<Rightarrow> World \<Rightarrow> RegoScanner" where
  "fresh_engine s w =
     \<lparr>rid = allocated w, sourceKind = SourceKubernetes, regoOptions = options s,
      parentDebug = Some (debug s), loaded = None\<rparr>"

definition loaded_engine :: "FS \<Rightarrow> Scanner \<Rightarrow> World \<Rightarrow> RegoScanner" where
  "loaded_engine f s w =
     (fresh_engine s w)\<lparr>loaded := Some (loadEmbedded s, f, policyDirs s, policyReaders s)\<rparr>"

definition construction_events :: "FS \<Rightarrow> Scanner \<Rightarrow> World \<Rightarrow> Event list" where
  "construction_events f s w =
     [EvNewScanner (allocated w) SourceKubernetes (options s),
      EvSetParentDebugLogger (allocated w) (debug s),
      EvLoadPolicies (allocated w) (loadEmbedded s) f (policyDirs s) (policyReaders s)]"

definition after_construction :: "FS \<Rightarrow> Scanner \<Rightarrow> World \<Rightarrow> World" where
  "after_construction f s w =
     \<lparr>trace = trace w @ construction_events f s w, allocated = Suc (allocated w)\<rparr>"

text \<open>The input that the adapter makes of one document.\<close>

definition input_of :: "FS \<Rightarrow> string \<Rightarrow> Document \<Rightarrow> Input" where
  "input_of target path content = \<lparr>Path = path, FS = target, Contents = content\<rparr>"

text \<open>
  The world after the parse of a scan, and the two calls that \<^verbatim>\<open>ScanFS\<close> makes
  between obtaining the engine and annotating the results.
\<close>

definition parsed_world :: "Context \<Rightarrow> FS \<Rightarrow> string \<Rightarrow> Scanner \<Rightarrow> World \<Rightarrow> World" where
  "parsed_world ctx target dir s w = emit (EvParseFS (parser s) ctx target dir) w"

definition evaluation_events :: "Context \<Rightarrow> Scanner \<Rightarrow> RegoScanner \<Rightarrow> Input list \<Rightarrow> Event list" where
  "evaluation_events ctx s rs inputs =
     [EvDebugLog (debug s) ''Scanning %d files...'' (length inputs),
      EvScanInput (rid rs) ctx inputs]"

text \<open>The manifests that the concrete parser finds on host filesystem 1.\<close>

definition demo_filesets :: "(string \<times> Document list) list" where
  "demo_filesets = [(''a.yaml'', [''pod'', ''svc'']), (''b.yaml'', [''job''])]"

text \<open>The in-memory filesystem that the stream entry point builds for one manifest.\<close>

definition demo_memfs :: FS where
  "demo_memfs = MemFS [OpMkdirAll ''x.yaml'' 448, OpWriteFile ''x.yaml'' ''pod'' 420]"

text \<open>Calls that change the skip flag of the scanner and then scan.\<close>

definition skip_calls :: "(Env \<times> Call) list" where
  "skip_calls =
     [(demo_env, CallSetter (ScannerWithSkipRequiredCheck False)),
      (demo_env, CallScanFS 0 (HostFS 1) ''.''),
      (demo_env, CallScanReader 0 ''x.yaml'' (BytesReader ''pod''))]"

text \<open>A sequence of calls for the concrete environment, and a loader that rejects everything.\<close>

definition demo_calls :: "(Env \<times> Call) list" where
  "demo_calls =
     [(demo_env, CallSetter (ScannerWithPolicyDirs [''bad''])),
      (demo_env, CallSetter (ScannerWithEmbeddedPolicies True)),
      (demo_env, CallScanFS 0 (HostFS 1) ''.''),
      (demo_env, CallInitRegoScanner (HostFS 5)),
      (demo_env, CallScanReader 0 ''x.yaml'' (BytesReader ''pod''))]"

definition failing_env :: Env where
  "failing_env = demo_env\<lparr>loadPolicies := (\<lambda>emb f dirs readers. Some (Error ''load''))\<rparr>"

section \<open>Basic facts about the trace\<close>

lemma trace_emit: "trace (emit e w) = trace w @ [e]"
  by (simp add: emit_def)

lemma allocated_emit: "allocated (emit e w) = allocated w"
  by (simp add: emit_def)

lemma new_events_append: "trace w' = trace w @ es \<Longrightarrow> new_events w w' = es"
  by (simp add: new_events_def)

lemma new_events_emit: "new_events w (emit e w) = [e]"
  by (simp add: new_events_def emit_def)

section \<open>The short circuit on an empty mapping\<close>

text \<open>
  Claim C1. Whatever the filesystem and the directory, when the parser returns the empty
  mapping \<^verbatim>\<open>ScanFS\<close> returns no result and no error (the \<^verbatim>\<open>nil\<close> slice is the
  empty list), leaves the scanner as it was, so that a \<^verbatim>\<open>nil\<close> engine field stays
  \<^verbatim>\<open>nil\<close>, and the only call it made on a collaborator is the parse: no engine was
  allocated and \<^verbatim>\<open>LoadPolicies\<close> was not invoked.
\<close>

theorem ScanFS_empty_mapping:
  assumes "parseFS env (parser s) ctx target dir = Inr []"
  shows "ScanFS env ctx target dir s w = (Inr [], s, emit (EvParseFS (parser s) ctx target dir) w)
       \<and> regoScanner (fst (snd (ScanFS env ctx target dir s w))) = regoScanner s
       \<and> new_events w (snd (snd (ScanFS env ctx target dir s w))) = [EvParseFS (parser s) ctx target dir]
       \<and> filter isLoadPolicies (new_events w (snd (snd (ScanFS env ctx target dir s w)))) = []
       \<and> filter isNewScanner (new_events w (snd (snd (ScanFS env ctx target dir s w)))) = []
       \<and> allocated (snd (snd (ScanFS env ctx target dir s w))) = allocated w"
  using assms by (simp add: ScanFS_def new_events_emit allocated_emit)

theorem ScanFS_empty_mapping_witness:
  "parseFS demo_env (parser (NewScanner [])) 0 (HostFS 0) ''.'' = Inr []
   \<and> ScanFS demo_env 0 (HostFS 0) ''.'' (NewScanner []) demo_world
       = (Inr [], NewScanner [], emit (EvParseFS (parser (NewScanner [])) 0 (HostFS 0) ''.'') demo_world)
   \<and> regoScanner (NewScanner []) = None
   \<and> regoScanner (fst (snd (ScanFS demo_env 0 (HostFS 0) ''.'' (NewScanner []) demo_world))) = None"
proof -
  have h: "parseFS demo_env (parser (NewScanner [])) 0 (HostFS 0) ''.'' = Inr []"
    by (simp add: demo_env_def)
  have n: "regoScanner (NewScanner []) = None"
    by (simp add: NewScanner_def zeroScanner_def)
  show ?thesis
    using h n ScanFS_empty_mapping [OF h, of demo_world] by simp
qed

section \<open>Parser errors\<close>

text \<open>
  Claim C5. Whatever the filesystem and the directory, when the parser returns an error
  \<^verbatim>\<open>ScanFS\<close> returns that very error with no result, and the scanner is left as it
  was: its engine field is unchanged, hence still unset when it was unset.
\<close>

theorem ScanFS_parser_error:
  assumes "parseFS env (parser s) ctx target dir = Inl err"
  shows "ScanFS env ctx target dir s w = (Inl err, s, emit (EvParseFS (parser s) ctx target dir) w)
       \<and> regoScanner (fst (snd (ScanFS env ctx target dir s w))) = regoScanner s
       \<and> new_events w (snd (snd (ScanFS env ctx target dir s w))) = [EvParseFS (parser s) ctx target dir]"
  using assms by (simp add: ScanFS_def new_events_emit)

theorem ScanFS_parser_error_witness:
  "parseFS demo_env (parser (NewScanner [])) 0 (HostFS 2) ''.'' = Inl (Error ''parse'')
   \<and> fst (ScanFS demo_env 0 (HostFS 2) ''.'' (NewScanner []) demo_world) = Inl (Error ''parse'')
   \<and> fst (snd (ScanFS demo_env 0 (HostFS 2) ''.'' (NewScanner []) demo_world)) = NewScanner []
   \<and> regoScanner (NewScanner []) = None"
proof -
  have h: "parseFS demo_env (parser (NewScanner [])) 0 (HostFS 2) ''.'' = Inl (Error ''parse'')"
    by (simp add: demo_env_def)
  have n: "regoScanner (NewScanner []) = None"
    by (simp add: NewScanner_def zeroScanner_def)
  show ?thesis
    using h n ScanFS_parser_error [OF h, of demo_world] by simp
qed

section \<open>The engine cache\<close>

lemma quiet_refl: "quiet w w"
  by (simp add: quiet_def new_events_def)

lemma quietI:
  assumes "trace w' = trace w @ es" "filter isLoadPolicies es = []" "filter isNewScanner es = []"
    "allocated w' = allocated w"
  shows "quiet w w'"
  using assms by (simp add: quiet_def new_events_def)

lemma quietE:
  assumes "quiet w w'"
  obtains es where "trace w' = trace w @ es" "filter isLoadPolicies es = []"
    "filter isNewScanner es = []" "allocated w' = allocated w"
proof -
  from assms have t: "take (length (trace w)) (trace w') = trace w"
    by (simp add: quiet_def)
  have "trace w' = take (length (trace w)) (trace w') @ drop (length (trace w)) (trace w')"
    by simp
  with t have "trace w' = trace w @ new_events w w'"
    by (simp add: new_events_def)
  with assms that show thesis
    by (simp add: quiet_def)
qed

lemma quiet_trans:
  assumes "quiet w w'" "quiet w' w''"
  shows "quiet w w''"
proof -
  from assms(1) obtain es where 1: "trace w' = trace w @ es" "filter isLoadPolicies es = []"
    "filter isNewScanner es = []" "allocated w' = allocated w" by (rule quietE)
  from assms(2) obtain es' where 2: "trace w'' = trace w' @ es'" "filter isLoadPolicies es' = []"
    "filter isNewScanner es' = []" "allocated w'' = allocated w'" by (rule quietE)
  show ?thesis
    by (rule quietI [where es = "es @ es'"]) (simp_all add: 1 2)
qed

lemma quiet_emit:
  "\<not> isLoadPolicies e \<Longrightarrow> \<not> isNewScanner e \<Longrightarrow> quiet w (emit e w)"
  by (rule quietI [where es = "[e]"]) (simp_all add: emit_def)

lemma initRegoScanner_cached:
  "regoScanner s = Some r \<Longrightarrow> initRegoScanner env f s w = (Inr r, s, w)"
  by (simp add: initRegoScanner_def)

lemma initRegoScanner_fresh:
  assumes "regoScanner s = None"
  shows "initRegoScanner env f s w =
     (case loadPolicies env (loadEmbedded s) f (policyDirs s) (policyReaders s) of
        Some err \<Rightarrow> (Inl err, s, after_construction f s w)
      | None \<Rightarrow>
          (Inr (loaded_engine f s w), s\<lparr>regoScanner := Some (loaded_engine f s w)\<rparr>,
           after_construction f s w))"
  using assms
  by (simp add: initRegoScanner_def rego_NewScanner_def SetParentDebugLogger_def LoadPolicies_def
      emit_def fresh_engine_def loaded_engine_def after_construction_def construction_events_def split: option.splits)

lemma initRegoScanner_success_caches:
  assumes "initRegoScanner env f s w = (Inr r, s', w')"
  shows "regoScanner s' = Some r"
proof (cases "regoScanner s")
  case None
  with assms show ?thesis
    by (auto simp: initRegoScanner_fresh split: option.splits)
next
  case (Some c)
  with assms show ?thesis
    by (simp add: initRegoScanner_cached)
qed

lemmas setter_defs =
  SetSpec_def SetRegoOnly_def SetFrameworks_def SetUseEmbeddedPolicies_def
  SetPolicyReaders_def SetSkipRequiredCheck_def SetDebugWriter_def SetTraceWriter_def
  SetPerResultTracingEnabled_def SetPolicyDirs_def SetDataDirs_def SetPolicyNamespaces_def
  SetPolicyFilesystem_def SetDataFilesystem_def

lemma regoScanner_apply_option: "regoScanner (apply_option opt s) = regoScanner s"
  by (cases opt) (simp_all add: setter_defs)

lemma regoScanner_apply_options: "regoScanner (apply_options opts s) = regoScanner s"
  unfolding apply_options_def
  by (induction opts arbitrary: s) (simp_all add: regoScanner_apply_option)

lemma ScanFS_cached:
  assumes "regoScanner s = Some r"
  shows "fst (snd (ScanFS env ctx f dir s w)) = s \<and> quiet w (snd (snd (ScanFS env ctx f dir s w)))"
proof -
  let ?w1 = "emit (EvParseFS (parser s) ctx f dir) w"
  have q1: "quiet w ?w1" by (simp add: quiet_emit)
  show ?thesis
  proof (cases "parseFS env (parser s) ctx f dir")
    case (Inl err)
    with q1 show ?thesis by (simp add: ScanFS_def)
  next
    case (Inr m)
    show ?thesis
    proof (cases "m = []")
      case True
      with Inr q1 show ?thesis by (simp add: ScanFS_def)
    next
      case False
      let ?inputs = "build_inputs f m"
      let ?w3 = "emit (EvDebugLog (debug s) ''Scanning %d files...'' (length ?inputs)) ?w1"
      let ?w4 = "emit (EvScanInput (rid r) ctx ?inputs) ?w3"
      let ?w5 = "emit (EvSetSourceAndFilesystem [] f False) ?w4"
      have q4: "quiet w ?w4"
        by (rule quiet_trans [OF q1], rule quiet_trans [where w' = ?w3]) (simp_all add: quiet_emit)
      have q5: "quiet w ?w5"
        by (rule quiet_trans [OF q4]) (simp add: quiet_emit)
      from Inr False assms q4 q5 show ?thesis
        by (simp add: ScanFS_def initRegoScanner_cached Let_def split: sum.splits)
    qed
  qed
qed

lemma ScanReader_cached:
  assumes "regoScanner s = Some r"
  shows "fst (snd (ScanReader env ctx filename reader s w)) = s
       \<and> quiet w (snd (snd (ScanReader env ctx filename reader s w)))"
  using ScanFS_cached [OF assms]
  by (simp add: ScanReader_def quiet_refl split: sum.splits)

lemma run_call_cached:
  assumes "regoScanner s = Some r" and "run_call (s, w) call = (s', w')"
  shows "regoScanner s' = Some r \<and> quiet w w'"
proof (cases call)
  case (Pair env c)
  show ?thesis
  proof (cases c)
    case (CallSetter opt)
    with Pair assms show ?thesis
      by (auto simp: regoScanner_apply_option quiet_refl)
  next
    case (CallInitRegoScanner f)
    with Pair assms show ?thesis
      by (auto simp: initRegoScanner_cached quiet_refl)
  next
    case (CallScanFS ctx f dir)
    with Pair assms ScanFS_cached [OF assms(1), of env ctx f dir w] show ?thesis
      by (cases "ScanFS env ctx f dir s w") auto
  next
    case (CallScanReader ctx filename reader)
    with Pair assms ScanReader_cached [OF assms(1), of env ctx filename reader w] show ?thesis
      by (cases "ScanReader env ctx filename reader s w") auto
  qed
qed

lemma run_calls_cached:
  assumes "regoScanner s = Some r" and "run_calls calls (s, w) = (s', w')"
  shows "regoScanner s' = Some r \<and> quiet w w'"
  using assms
proof (induction calls arbitrary: s w)
  case Nil
  then show ?case by (simp add: run_calls_def quiet_refl)
next
  case (Cons c calls)
  obtain s1 w1 where step: "run_call (s, w) c = (s1, w1)"
    by (cases "run_call (s, w) c")
  from run_call_cached [OF Cons.prems(1) step]
  have 1: "regoScanner s1 = Some r" and q1: "quiet w w1" by simp_all
  from Cons.prems(2) step have "run_calls calls (s1, w1) = (s', w')"
    by (simp add: run_calls_def)
  from Cons.IH [OF 1 this] q1 show ?case
    by (auto intro: quiet_trans)
qed

text \<open>
  Claim C3. Once \<^verbatim>\<open>initRegoScanner\<close> has succeeded on a scanner, then after any
  sequence of later calls on that scanner (setters of policy directories, policy readers,
  the embedded-policy flag or any other setter, further scans and further calls of
  \<^verbatim>\<open>initRegoScanner\<close>, each in an environment of its own) a call of
  \<^verbatim>\<open>initRegoScanner\<close> with any filesystem argument returns the same engine and no
  error and changes neither the scanner nor the world; and none of the calls in between
  allocated an engine or invoked a policy load.
\<close>

theorem initRegoScanner_cached_forever:
  assumes "initRegoScanner env0 f0 s0 w0 = (Inr r, s1, w1)"
    and "run_calls calls (s1, w1) = (s2, w2)"
  shows "initRegoScanner env f s2 w2 = (Inr r, s2, w2) \<and> regoScanner s2 = Some r \<and> quiet w1 w2"
proof -
  from assms(1) have "regoScanner s1 = Some r"
    by (rule initRegoScanner_success_caches)
  from run_calls_cached [OF this assms(2)]
  show ?thesis by (simp add: initRegoScanner_cached)
qed


theorem initRegoScanner_cached_forever_witness:
  "fst (initRegoScanner demo_env (HostFS 1) (NewScanner []) demo_world)
     = Inr (loaded_engine (HostFS 1) (NewScanner []) demo_world)
   \<and> initRegoScanner failing_env (HostFS 9)
         (fst (run_calls demo_calls (snd (initRegoScanner demo_env (HostFS 1) (NewScanner []) demo_world))))
         (snd (run_calls demo_calls (snd (initRegoScanner demo_env (HostFS 1) (NewScanner []) demo_world))))
       = (Inr (loaded_engine (HostFS 1) (NewScanner []) demo_world),
          run_calls demo_calls (snd (initRegoScanner demo_env (HostFS 1) (NewScanner []) demo_world)))"
proof -
  let ?r = "loaded_engine (HostFS 1) (NewScanner []) demo_world"
  let ?sw1 = "snd (initRegoScanner demo_env (HostFS 1) (NewScanner []) demo_world)"
  let ?sw2 = "run_calls demo_calls ?sw1"
  have "loadPolicies demo_env False (HostFS 1) [] [] = None"
    by (simp add: demo_env_def)
  then have f: "fst (initRegoScanner demo_env (HostFS 1) (NewScanner []) demo_world) = Inr ?r"
    by (simp add: initRegoScanner_fresh NewScanner_def zeroScanner_def)
  have h1: "initRegoScanner demo_env (HostFS 1) (NewScanner []) demo_world = (Inr ?r, fst ?sw1, snd ?sw1)"
    using f by (simp add: prod_eq_iff)
  have h2: "run_calls demo_calls (fst ?sw1, snd ?sw1) = (fst ?sw2, snd ?sw2)"
    by simp
  show ?thesis
    using f initRegoScanner_cached_forever [OF h1 h2, of failing_env "HostFS 9"] by simp
qed

text \<open>
  Claim C4. When the engine cache is empty and policy loading fails,
  \<^verbatim>\<open>initRegoScanner\<close> returns no engine and that error, and the scanner is as it
  was, its engine field still \<^verbatim>\<open>nil\<close>. A following call, after any setters, with any
  filesystem and in any environment, constructs again: it makes the three calls of a
  construction, the policy load among them, and when that load succeeds it returns and
  caches the new engine.
\<close>

theorem initRegoScanner_load_failure:
  assumes "regoScanner s = None"
    and "loadPolicies env (loadEmbedded s) f (policyDirs s) (policyReaders s) = Some err"
  shows "initRegoScanner env f s w = (Inl err, s, after_construction f s w)
       \<and> regoScanner (fst (snd (initRegoScanner env f s w))) = None
       \<and> new_events (after_construction f s w)
           (snd (snd (initRegoScanner env' f' (apply_options opts s) (after_construction f s w))))
         = construction_events f' (apply_options opts s) (after_construction f s w)
       \<and> (loadPolicies env' (loadEmbedded (apply_options opts s)) f'
             (policyDirs (apply_options opts s)) (policyReaders (apply_options opts s)) = None
          \<longrightarrow> fst (initRegoScanner env' f' (apply_options opts s) (after_construction f s w))
              = Inr (loaded_engine f' (apply_options opts s) (after_construction f s w))
            \<and> regoScanner (fst (snd (initRegoScanner env' f' (apply_options opts s) (after_construction f s w))))
              = Some (loaded_engine f' (apply_options opts s) (after_construction f s w)))"
proof -
  let ?s2 = "apply_options opts s" and ?w2 = "after_construction f s w"
  have first: "initRegoScanner env f s w = (Inl err, s, ?w2)"
    using assms by (simp add: initRegoScanner_fresh)
  have none2: "regoScanner ?s2 = None"
    using assms(1) by (simp add: regoScanner_apply_options)
  have w3: "snd (snd (initRegoScanner env' f' ?s2 ?w2)) = after_construction f' ?s2 ?w2"
    by (simp add: initRegoScanner_fresh [OF none2] split: option.splits)
  have ev: "new_events ?w2 (after_construction f' ?s2 ?w2) = construction_events f' ?s2 ?w2"
    by (rule new_events_append) (simp add: after_construction_def)
  show ?thesis
    using first assms(1) w3 ev by (simp add: initRegoScanner_fresh [OF none2])
qed

theorem initRegoScanner_load_failure_witness:
  "regoScanner (NewScanner [ScannerWithPolicyDirs [''bad'']]) = None
   \<and> fst (initRegoScanner demo_env (HostFS 1) (NewScanner [ScannerWithPolicyDirs [''bad'']]) demo_world)
       = Inl (Error ''load'')
   \<and> regoScanner (fst (snd (initRegoScanner demo_env (HostFS 1)
         (NewScanner [ScannerWithPolicyDirs [''bad'']]) demo_world))) = None
   \<and> (\<exists>r. fst (initRegoScanner demo_env (HostFS 1)
         (apply_options [ScannerWithPolicyDirs [''good'']] (NewScanner [ScannerWithPolicyDirs [''bad'']]))
         (after_construction (HostFS 1) (NewScanner [ScannerWithPolicyDirs [''bad'']]) demo_world)) = Inr r
        \<and> rid r = 1)"
proof -
  let ?s = "NewScanner [ScannerWithPolicyDirs [''bad'']]"
  have s: "?s = (zeroScanner [ScannerWithPolicyDirs [''bad'']])
      \<lparr>policyDirs := [''bad''], parser := Some (parser_New [ParserWithSkipRequiredCheck False])\<rparr>"
    by (simp add: NewScanner_def zeroScanner_def SetPolicyDirs_def)
  have n: "regoScanner ?s = None"
    by (simp add: s zeroScanner_def)
  have l: "loadPolicies demo_env (loadEmbedded ?s) (HostFS 1) (policyDirs ?s) (policyReaders ?s)
      = Some (Error ''load'')"
    by (simp add: s zeroScanner_def demo_env_def)
  have s2: "policyDirs (apply_options [ScannerWithPolicyDirs [''good'']] ?s) = [''good'']"
    by (simp add: apply_options_def SetPolicyDirs_def)
  have l2: "loadPolicies demo_env (loadEmbedded (apply_options [ScannerWithPolicyDirs [''good'']] ?s))
      (HostFS 1) (policyDirs (apply_options [ScannerWithPolicyDirs [''good'']] ?s))
      (policyReaders (apply_options [ScannerWithPolicyDirs [''good'']] ?s)) = None"
    by (simp add: s2 demo_env_def)
  have r: "rid (loaded_engine (HostFS 1) (apply_options [ScannerWithPolicyDirs [''good'']] ?s)
      (after_construction (HostFS 1) ?s demo_world)) = 1"
    by (simp add: loaded_engine_def fresh_engine_def after_construction_def demo_world_def)
  show ?thesis
    using n l2 r
      initRegoScanner_load_failure [OF n l, of demo_world demo_env "HostFS 1" "[ScannerWithPolicyDirs [''good'']]"]
    by simp
qed

section \<open>The input adapter\<close>

lemma append_inputs_eq:
  "append_inputs target path inputs k8sFiles = inputs @ map (input_of target path) k8sFiles"
  unfolding append_inputs_def
  by (induction k8sFiles arbitrary: inputs) (simp_all add: input_of_def)

lemma foldl_append_inputs:
  "foldl (\<lambda>inputs (path, k8sFiles). append_inputs target path inputs k8sFiles) acc m
     = acc @ concat (map (\<lambda>(path, k8sFiles). map (input_of target path) k8sFiles) m)"
  by (induction m arbitrary: acc) (auto simp: append_inputs_eq)

lemma build_inputs_eq:
  "build_inputs target m = concat (map (\<lambda>(path, k8sFiles). map (input_of target path) k8sFiles) m)"
  by (simp add: build_inputs_def foldl_append_inputs)

lemma Path_input_of: "Path (input_of target path content) = path"
  and FS_input_of: "FS (input_of target path content) = target"
  and Contents_input_of: "Contents (input_of target path content) = content"
  by (simp_all add: input_of_def)

lemma length_build_inputs:
  "length (build_inputs target m) = sum_list (map (\<lambda>(path, k8sFiles). length k8sFiles) m)"
  unfolding build_inputs_eq
  by (induction m) auto

lemma set_build_inputs:
  "set (build_inputs target m) = {input_of target path content | path content k8sFiles.
     (path, k8sFiles) \<in> set m \<and> content \<in> set k8sFiles}"
  unfolding build_inputs_eq by auto

lemma filter_other_path:
  "p \<noteq> path \<Longrightarrow> filter (\<lambda>i. Path i = p) (map (input_of target path) ds) = []"
  by (induction ds) (simp_all add: Path_input_of)

lemma filter_same_path:
  "filter (\<lambda>i. Path i = p) (map (input_of target p) ds) = map (input_of target p) ds"
  by (induction ds) (simp_all add: Path_input_of)

lemma contents_input_of: "map (Contents \<circ> input_of target p) ds = ds"
  by (induction ds) (simp_all add: Contents_input_of)

lemma filter_absent_path:
  "p \<notin> fst ` set m \<Longrightarrow> filter (\<lambda>i. Path i = p) (build_inputs target m) = []"
  unfolding build_inputs_eq
  by (induction m) (auto simp: filter_other_path)

lemma documents_of_path:
  assumes "distinct (map fst m)" and "(p, ds) \<in> set m"
  shows "map Contents (filter (\<lambda>i. Path i = p) (build_inputs target m)) = ds"
  using assms
proof (induction m)
  case Nil
  then show ?case by simp
next
  case (Cons e m)
  obtain q qs where e: "e = (q, qs)" by (cases e)
  have unfold: "build_inputs target (e # m) = map (input_of target q) qs @ build_inputs target m"
    by (simp add: build_inputs_eq e)
  show ?case
  proof (cases "(p, ds) = e")
    case True
    with e have pq: "p = q" "ds = qs" by simp_all
    from Cons.prems(1) e pq have "p \<notin> fst ` set m" by simp
    then have "filter (\<lambda>i. Path i = p) (build_inputs target m) = []"
      by (rule filter_absent_path)
    then show ?thesis
      by (simp add: unfold pq filter_same_path contents_input_of)
  next
    case False
    with Cons.prems(2) have mem: "(p, ds) \<in> set m" by simp
    then have "p \<in> fst ` set m" by force
    with Cons.prems(1) e have "p \<noteq> q" by auto
    moreover from Cons.prems(1) have "distinct (map fst m)" by simp
    ultimately show ?thesis
      using Cons.IH mem by (simp add: unfold filter_other_path)
  qed
qed


lemma trace_initRegoScanner:
  "trace (snd (snd (initRegoScanner env f s w)))
     = trace w @ new_events w (snd (snd (initRegoScanner env f s w)))"
proof (cases "regoScanner s")
  case None
  then show ?thesis
    by (simp add: initRegoScanner_fresh after_construction_def new_events_def split: option.splits)
next
  case (Some r)
  then show ?thesis
    by (simp add: initRegoScanner_cached new_events_def)
qed

lemma debug_initRegoScanner: "debug (fst (snd (initRegoScanner env f s w))) = debug s"
  by (cases "regoScanner s")
    (simp_all add: initRegoScanner_fresh initRegoScanner_cached split: option.splits)

lemma ScanFS_nonempty:
  assumes "parseFS env (parser s) ctx target dir = Inr m" and "m \<noteq> []"
  shows "ScanFS env ctx target dir s w =
     (case initRegoScanner env target s (parsed_world ctx target dir s w) of
        (Inl err, s2, w2) \<Rightarrow> (Inl err, s2, w2)
      | (Inr rs, s2, w2) \<Rightarrow>
          (case scanInput env rs ctx (build_inputs target m) of
             Inl err \<Rightarrow>
               (Inl err, s2, w2\<lparr>trace := trace w2 @ evaluation_events ctx s rs (build_inputs target m)\<rparr>)
           | Inr results \<Rightarrow>
               (Inr (SetSourceAndFilesystem [] target False results), s2,
                w2\<lparr>trace := trace w2 @ evaluation_events ctx s rs (build_inputs target m)
                              @ [EvSetSourceAndFilesystem [] target False]\<rparr>)))"
proof -
  obtain eng s2 w2 where i: "initRegoScanner env target s (parsed_world ctx target dir s w) = (eng, s2, w2)"
    by (cases "initRegoScanner env target s (parsed_world ctx target dir s w)")
  have d: "debug s2 = debug s"
    using debug_initRegoScanner [of env target s "parsed_world ctx target dir s w"] i by simp
  have i': "initRegoScanner env target s (emit (EvParseFS (parser s) ctx target dir) w) = (eng, s2, w2)"
    using i by (simp add: parsed_world_def)
  show ?thesis
    apply (simp add: ScanFS_def assms i i' d Let_def split: sum.splits)
    apply (simp add: emit_def evaluation_events_def)
    done
qed

lemma events_initRegoScanner:
  "new_events w (snd (snd (initRegoScanner env f s w)))
     = (case regoScanner s of None \<Rightarrow> construction_events f s w | Some r \<Rightarrow> [])"
proof (cases "regoScanner s")
  case None
  have "new_events w (after_construction f s w) = construction_events f s w"
    by (rule new_events_append) (simp add: after_construction_def)
  then show ?thesis
    by (simp add: initRegoScanner_fresh [OF None] None split: option.splits)
next
  case (Some r)
  then show ?thesis
    by (simp add: initRegoScanner_cached new_events_def)
qed

text \<open>The events of a scan that got past the short circuit.\<close>

lemma ScanFS_nonempty_events:
  assumes "parseFS env (parser s) ctx target dir = Inr m" and "m \<noteq> []"
  shows "new_events w (snd (snd (ScanFS env ctx target dir s w))) =
     EvParseFS (parser s) ctx target dir
     # (case regoScanner s of None \<Rightarrow> construction_events target s (parsed_world ctx target dir s w) | Some r \<Rightarrow> [])
     @ (case fst (initRegoScanner env target s (parsed_world ctx target dir s w)) of
          Inl err \<Rightarrow> []
        | Inr rs \<Rightarrow>
            evaluation_events ctx s rs (build_inputs target m)
            @ (case scanInput env rs ctx (build_inputs target m) of
                 Inl err \<Rightarrow> []
               | Inr results \<Rightarrow> [EvSetSourceAndFilesystem [] target False]))"
proof -
  let ?w1 = "parsed_world ctx target dir s w"
  obtain eng s2 w2 where i: "initRegoScanner env target s ?w1 = (eng, s2, w2)"
    by (cases "initRegoScanner env target s ?w1")
  let ?ie = "case regoScanner s of None \<Rightarrow> construction_events target s ?w1 | Some r \<Rightarrow> []"
  have "trace w2 = trace ?w1 @ new_events ?w1 w2"
    using trace_initRegoScanner [of env target s ?w1] i by simp
  moreover have "new_events ?w1 w2 = ?ie"
    using events_initRegoScanner [of ?w1 env target s] i by simp
  ultimately have t2: "trace w2 = trace w @ EvParseFS (parser s) ctx target dir # ?ie"
    by (simp add: parsed_world_def emit_def)
  show ?thesis
    unfolding ScanFS_nonempty [OF assms] i
    by (simp add: new_events_def t2 split: sum.splits)
qed

text \<open>
  Claim C6. For a parsed mapping (its paths are pairwise distinct, as the keys of a map
  are) the input sequence that \<^verbatim>\<open>ScanFS\<close> builds is the concatenation, in the order
  in which the mapping is visited, of the documents of each path turned into inputs: one
  input per path and document, so that there are as many inputs as documents; every input
  has the scanned filesystem as its \<^verbatim>\<open>FS\<close> and is the unmodified document of a path
  of the mapping; and the contents of the inputs of any one path are the documents of that
  path in the parser's order. When the mapping is not empty, the sequence given to the one
  evaluation call of the scan is that sequence.
\<close>

theorem build_inputs_flattening:
  assumes "distinct (map fst m)"
  shows "build_inputs target m = concat (map (\<lambda>(path, k8sFiles). map (input_of target path) k8sFiles) m)
       \<and> length (build_inputs target m) = sum_list (map (\<lambda>(path, k8sFiles). length k8sFiles) m)
       \<and> (\<forall>i \<in> set (build_inputs target m).
            FS i = target \<and> (\<exists>k8sFiles. (Path i, k8sFiles) \<in> set m \<and> Contents i \<in> set k8sFiles))
       \<and> (\<forall>(p, ds) \<in> set m. map Contents (filter (\<lambda>i. Path i = p) (build_inputs target m)) = ds)
       \<and> (parseFS env (parser s) ctx target dir = Inr m \<and> m \<noteq> [] \<longrightarrow>
            filter isScanInput (new_events w (snd (snd (ScanFS env ctx target dir s w))))
              = (case fst (initRegoScanner env target s (parsed_world ctx target dir s w)) of
                   Inl err \<Rightarrow> []
                 | Inr rs \<Rightarrow> [EvScanInput (rid rs) ctx (build_inputs target m)]))"
proof -
  have a: "\<forall>i \<in> set (build_inputs target m).
      FS i = target \<and> (\<exists>k8sFiles. (Path i, k8sFiles) \<in> set m \<and> Contents i \<in> set k8sFiles)"
    by (auto simp: set_build_inputs Path_input_of FS_input_of Contents_input_of)
  have b: "\<forall>(p, ds) \<in> set m. map Contents (filter (\<lambda>i. Path i = p) (build_inputs target m)) = ds"
    using documents_of_path [OF assms] by auto
  have c: "parseFS env (parser s) ctx target dir = Inr m \<and> m \<noteq> [] \<longrightarrow>
      filter isScanInput (new_events w (snd (snd (ScanFS env ctx target dir s w))))
        = (case fst (initRegoScanner env target s (parsed_world ctx target dir s w)) of
             Inl err \<Rightarrow> []
           | Inr rs \<Rightarrow> [EvScanInput (rid rs) ctx (build_inputs target m)])"
    by (auto simp: ScanFS_nonempty_events construction_events_def evaluation_events_def
        split: option.splits sum.splits)
  from a b c show ?thesis
    by (simp add: build_inputs_eq [symmetric] length_build_inputs)
qed

lemma demo_parse_1: "parseFS demo_env (parser (NewScanner [])) 0 (HostFS 1) ''.'' = Inr demo_filesets"
  by (simp add: demo_env_def demo_filesets_def)

lemma demo_init_1:
  "fst (initRegoScanner demo_env (HostFS 1) (NewScanner []) (parsed_world 0 (HostFS 1) ''.'' (NewScanner []) demo_world))
     = Inr (loaded_engine (HostFS 1) (NewScanner []) (parsed_world 0 (HostFS 1) ''.'' (NewScanner []) demo_world))"
proof -
  have "loadPolicies demo_env False (HostFS 1) [] [] = None"
    by (simp add: demo_env_def)
  then show ?thesis
    by (simp add: initRegoScanner_fresh NewScanner_def zeroScanner_def)
qed

theorem build_inputs_flattening_witness:
  "distinct (map fst demo_filesets)
   \<and> build_inputs (HostFS 1) demo_filesets
       = [input_of (HostFS 1) ''a.yaml'' ''pod'', input_of (HostFS 1) ''a.yaml'' ''svc'',
          input_of (HostFS 1) ''b.yaml'' ''job'']
   \<and> map Contents (filter (\<lambda>i. Path i = ''a.yaml'') (build_inputs (HostFS 1) demo_filesets))
       = [''pod'', ''svc'']
   \<and> parseFS demo_env (parser (NewScanner [])) 0 (HostFS 1) ''.'' = Inr demo_filesets
   \<and> demo_filesets \<noteq> []
   \<and> filter isScanInput
        (new_events demo_world (snd (snd (ScanFS demo_env 0 (HostFS 1) ''.'' (NewScanner []) demo_world))))
       = [EvScanInput 0 0 (build_inputs (HostFS 1) demo_filesets)]"
proof -
  have d: "distinct (map fst demo_filesets)"
    by (simp add: demo_filesets_def)
  have ne: "demo_filesets \<noteq> []"
    by (simp add: demo_filesets_def)
  have mem: "(''a.yaml'', [''pod'', ''svc'']) \<in> set demo_filesets"
    by (simp add: demo_filesets_def)
  have r: "rid (loaded_engine (HostFS 1) (NewScanner [])
      (parsed_world 0 (HostFS 1) ''.'' (NewScanner []) demo_world)) = 0"
    by (simp add: loaded_engine_def fresh_engine_def parsed_world_def emit_def demo_world_def)
  have c: "concat (map (\<lambda>(path, k8sFiles). map (input_of (HostFS 1) path) k8sFiles) demo_filesets)
      = [input_of (HostFS 1) ''a.yaml'' ''pod'', input_of (HostFS 1) ''a.yaml'' ''svc'',
         input_of (HostFS 1) ''b.yaml'' ''job'']"
    by (simp add: demo_filesets_def)
  note T = build_inputs_flattening [OF d, of "HostFS 1" demo_env "NewScanner []" 0 "''.''" demo_world]
  from T c have t1: "build_inputs (HostFS 1) demo_filesets
      = [input_of (HostFS 1) ''a.yaml'' ''pod'', input_of (HostFS 1) ''a.yaml'' ''svc'',
         input_of (HostFS 1) ''b.yaml'' ''job'']"
    by simp
  note per_path = T [THEN conjunct2, THEN conjunct2, THEN conjunct2, THEN conjunct1]
  from bspec [OF per_path mem]
  have t2: "map Contents (filter (\<lambda>i. Path i = ''a.yaml'') (build_inputs (HostFS 1) demo_filesets))
      = [''pod'', ''svc'']"
    by simp
  note evaluated = T [THEN conjunct2, THEN conjunct2, THEN conjunct2, THEN conjunct2, THEN mp,
      OF conjI [OF demo_parse_1 ne]]
  from evaluated demo_init_1 r have t3: "filter isScanInput
      (new_events demo_world (snd (snd (ScanFS demo_env 0 (HostFS 1) ''.'' (NewScanner []) demo_world))))
      = [EvScanInput 0 0 (build_inputs (HostFS 1) demo_filesets)]"
    by simp
  from d t1 t2 demo_parse_1 ne t3 show ?thesis
    by (intro conjI)
qed

text \<open>
  Claim C7. When \<^verbatim>\<open>ScanFS\<close> succeeds on a mapping that is not empty, the returned
  results are what the evaluation returned, annotated: every finding has the empty source
  label, the scanned filesystem and the mixed-filesystem flag \<^verbatim>\<open>false\<close>, with statuses
  and rule identifiers as the evaluation gave them. The annotation is made once, as the
  last call of the scan, right after the evaluation call.
\<close>

theorem ScanFS_provenance:
  assumes "parseFS env (parser s) ctx target dir = Inr m" and "m \<noteq> []"
    and "ScanFS env ctx target dir s w = (Inr results, s', w')"
  shows "(\<forall>r \<in> set results. source r = [] \<and> filesystem r = Some target \<and> mixed r = False)
       \<and> filter isSetSourceAndFilesystem (new_events w w') = [EvSetSourceAndFilesystem [] target False]
       \<and> (\<exists>rs raw. scanInput env rs ctx (build_inputs target m) = Inr raw
            \<and> results = SetSourceAndFilesystem [] target False raw
            \<and> map status results = map status raw
            \<and> map ruleID results = map ruleID raw
            \<and> (\<exists>pre. new_events w w' = pre @ [EvScanInput (rid rs) ctx (build_inputs target m),
                                              EvSetSourceAndFilesystem [] target False]))"
proof -
  let ?w1 = "parsed_world ctx target dir s w"
  let ?inputs = "build_inputs target m"
  obtain eng s2 w2 where i: "initRegoScanner env target s ?w1 = (eng, s2, w2)"
    by (cases "initRegoScanner env target s ?w1")
  from assms(3) obtain rs where eng: "eng = Inr rs"
    unfolding ScanFS_nonempty [OF assms(1,2)] i by (cases eng) auto
  from assms(3) obtain raw where raw: "scanInput env rs ctx ?inputs = Inr raw"
    unfolding ScanFS_nonempty [OF assms(1,2)] i eng by (cases "scanInput env rs ctx ?inputs") auto
  from assms(3) have res: "results = SetSourceAndFilesystem [] target False raw"
    unfolding ScanFS_nonempty [OF assms(1,2)] i eng by (simp add: raw)
  have w': "w' = snd (snd (ScanFS env ctx target dir s w))"
    by (simp add: assms(3))
  let ?ie = "case regoScanner s of None \<Rightarrow> construction_events target s ?w1 | Some r \<Rightarrow> []"
  have ev: "new_events w w' = EvParseFS (parser s) ctx target dir # ?ie
      @ evaluation_events ctx s rs ?inputs @ [EvSetSourceAndFilesystem [] target False]"
    unfolding w' ScanFS_nonempty_events [OF assms(1,2)] by (simp add: i eng raw)
  have 1: "\<forall>r \<in> set results. source r = [] \<and> filesystem r = Some target \<and> mixed r = False"
    by (auto simp: res SetSourceAndFilesystem_def)
  have 2: "filter isSetSourceAndFilesystem (new_events w w') = [EvSetSourceAndFilesystem [] target False]"
    by (simp add: ev construction_events_def evaluation_events_def split: option.splits)
  have 3: "map status results = map status raw" "map ruleID results = map ruleID raw"
    by (simp_all add: res SetSourceAndFilesystem_def)
  have 4: "new_events w w' = (EvParseFS (parser s) ctx target dir # ?ie
        @ [EvDebugLog (debug s) ''Scanning %d files...'' (length ?inputs)])
      @ [EvScanInput (rid rs) ctx ?inputs, EvSetSourceAndFilesystem [] target False]"
    by (simp add: ev evaluation_events_def)
  from 1 2 3 4 raw res show ?thesis by blast
qed

theorem ScanFS_provenance_witness:
  "parseFS demo_env (parser (NewScanner [])) 0 (HostFS 1) ''.'' = Inr demo_filesets
   \<and> demo_filesets \<noteq> []
   \<and> (\<exists>results. fst (ScanFS demo_env 0 (HostFS 1) ''.'' (NewScanner []) demo_world) = Inr results
        \<and> length results = 3
        \<and> (\<forall>r \<in> set results. source r = [] \<and> filesystem r = Some (HostFS 1) \<and> mixed r = False))"
proof -
  let ?run = "ScanFS demo_env 0 (HostFS 1) ''.'' (NewScanner []) demo_world"
  let ?raw = "map demo_finding (build_inputs (HostFS 1) demo_filesets)"
  have ne: "demo_filesets \<noteq> []"
    by (simp add: demo_filesets_def)
  obtain eng s2 w2 where i: "initRegoScanner demo_env (HostFS 1) (NewScanner [])
      (parsed_world 0 (HostFS 1) ''.'' (NewScanner []) demo_world) = (eng, s2, w2)"
    by (cases "initRegoScanner demo_env (HostFS 1) (NewScanner [])
      (parsed_world 0 (HostFS 1) ''.'' (NewScanner []) demo_world)")
  with demo_init_1 obtain rs where eng: "eng = Inr rs" by simp
  have sc: "scanInput demo_env rs 0 (build_inputs (HostFS 1) demo_filesets) = Inr ?raw"
    by (simp add: demo_env_def)
  have f: "fst ?run = Inr (SetSourceAndFilesystem [] (HostFS 1) False ?raw)"
    unfolding ScanFS_nonempty [OF demo_parse_1 ne] i eng using sc by simp
  have h: "?run = (Inr (SetSourceAndFilesystem [] (HostFS 1) False ?raw), fst (snd ?run), snd (snd ?run))"
    using f by (simp add: prod_eq_iff)
  have len: "length (SetSourceAndFilesystem [] (HostFS 1) False ?raw) = 3"
    by (simp add: SetSourceAndFilesystem_def length_build_inputs demo_filesets_def)
  from ScanFS_provenance [OF demo_parse_1 ne h]
  show ?thesis
    using demo_parse_1 ne f len by blast
qed

section \<open>A mapping without documents\<close>

lemma build_inputs_no_documents:
  assumes "\<forall>(p, ds) \<in> set m. ds = []"
  shows "build_inputs target m = []"
  using assms unfolding build_inputs_eq
  by (induction m) auto

lemma allocated_parsed_world: "allocated (parsed_world ctx target dir s w) = allocated w"
  by (simp add: parsed_world_def emit_def)

text \<open>
  Claim C2, as amended. For a parser result that is a non-empty mapping whose document
  lists are all empty, \<^verbatim>\<open>ScanFS\<close> does not take the short circuit of the empty
  mapping: it builds the empty input sequence, obtains the engine through
  \<^verbatim>\<open>initRegoScanner\<close>, which constructs it and invokes \<^verbatim>\<open>LoadPolicies\<close> when
  none is cached and whose error is returned, and then calls the evaluation once with no
  inputs, returning its error, or its results annotated with provenance.
\<close>

theorem ScanFS_zero_documents:
  assumes "parseFS env (parser s) ctx target dir = Inr m" and "m \<noteq> []"
    and "\<forall>(p, ds) \<in> set m. ds = []"
  shows "build_inputs target m = []
       \<and> ScanFS env ctx target dir s w =
           (case initRegoScanner env target s (parsed_world ctx target dir s w) of
              (Inl err, s2, w2) \<Rightarrow> (Inl err, s2, w2)
            | (Inr rs, s2, w2) \<Rightarrow>
                (case scanInput env rs ctx [] of
                   Inl err \<Rightarrow> (Inl err, s2, w2\<lparr>trace := trace w2 @ evaluation_events ctx s rs []\<rparr>)
                 | Inr results \<Rightarrow>
                     (Inr (SetSourceAndFilesystem [] target False results), s2,
                      w2\<lparr>trace := trace w2 @ evaluation_events ctx s rs []
                                    @ [EvSetSourceAndFilesystem [] target False]\<rparr>)))
       \<and> (regoScanner s = None \<longrightarrow>
            filter isLoadPolicies (new_events w (snd (snd (ScanFS env ctx target dir s w))))
              = [EvLoadPolicies (allocated w) (loadEmbedded s) target (policyDirs s) (policyReaders s)])"
proof -
  have e: "build_inputs target m = []"
    using assms(3) by (rule build_inputs_no_documents)
  have l: "regoScanner s = None \<longrightarrow>
      filter isLoadPolicies (new_events w (snd (snd (ScanFS env ctx target dir s w))))
        = [EvLoadPolicies (allocated w) (loadEmbedded s) target (policyDirs s) (policyReaders s)]"
    by (auto simp: ScanFS_nonempty_events [OF assms(1,2)] construction_events_def
        evaluation_events_def allocated_parsed_world split: sum.splits)
  note n = ScanFS_nonempty [OF assms(1,2), of w, unfolded e]
  from e n l show ?thesis
    by (intro conjI)
qed

lemma demo_parse_3: "parseFS demo_env p 0 (HostFS 3) ''.'' = Inr [(''e.yaml'', [])]"
  by (simp add: demo_env_def)

lemma regoScanner_NewScanner: "regoScanner (NewScanner opts) = None"
proof -
  have "regoScanner (foldl (\<lambda>s opt. apply_option opt s) s opts) = regoScanner s" for s
    using regoScanner_apply_options [of opts s] by (simp add: apply_options_def)
  then show ?thesis
    by (simp add: NewScanner_def Let_def zeroScanner_def)
qed

theorem ScanFS_zero_documents_witness:
  "parseFS demo_env (parser (NewScanner [])) 0 (HostFS 3) ''.'' = Inr [(''e.yaml'', [])]
   \<and> [(''e.yaml'', [])] \<noteq> ([] :: (string \<times> Document list) list)
   \<and> list_all (\<lambda>(p, ds). ds = ([] :: Document list)) [(''e.yaml'', [])]
   \<and> regoScanner (NewScanner []) = None
   \<and> build_inputs (HostFS 3) [(''e.yaml'', [])] = []
   \<and> filter isLoadPolicies
        (new_events demo_world (snd (snd (ScanFS demo_env 0 (HostFS 3) ''.'' (NewScanner []) demo_world))))
       = [EvLoadPolicies 0 False (HostFS 3) [] []]"
proof -
  have ne: "[(''e.yaml'', [])] \<noteq> ([] :: (string \<times> Document list) list)" by simp
  have z: "\<forall>(p, ds) \<in> set [(''e.yaml'', [])]. ds = ([] :: Document list)" by simp
  have f: "allocated demo_world = 0" "loadEmbedded (NewScanner []) = False"
    "policyDirs (NewScanner []) = []" "policyReaders (NewScanner []) = []"
    by (simp_all add: demo_world_def NewScanner_def zeroScanner_def)
  note T = ScanFS_zero_documents [OF demo_parse_3 ne z, of "NewScanner []" demo_world]
  from T [THEN conjunct2, THEN conjunct2, THEN mp, OF regoScanner_NewScanner] f
  have l: "filter isLoadPolicies
        (new_events demo_world (snd (snd (ScanFS demo_env 0 (HostFS 3) ''.'' (NewScanner []) demo_world))))
       = [EvLoadPolicies 0 False (HostFS 3) [] []]"
    by simp
  have z': "list_all (\<lambda>(p, ds). ds = ([] :: Document list)) [(''e.yaml'', [])]" by simp
  from demo_parse_3 ne z' regoScanner_NewScanner T [THEN conjunct1] l show ?thesis
    by (intro conjI)
qed

text \<open>
  The claim as it was stated fails. On a mapping with the one path \<^verbatim>\<open>e.yaml\<close> and no
  document, a scanner whose engine field is \<^verbatim>\<open>nil\<close> has an engine afterwards, the
  policy load and the evaluation were invoked, and with a policy directory that does not
  load the scan returns the load error instead of an empty result.
\<close>

theorem ScanFS_zero_documents_counterexample:
  "parseFS demo_env (parser (NewScanner [])) 0 (HostFS 3) ''.'' = Inr [(''e.yaml'', [])]
   \<and> regoScanner (NewScanner []) = None
   \<and> regoScanner (fst (snd (ScanFS demo_env 0 (HostFS 3) ''.'' (NewScanner []) demo_world))) \<noteq> None
   \<and> filter isLoadPolicies
        (new_events demo_world (snd (snd (ScanFS demo_env 0 (HostFS 3) ''.'' (NewScanner []) demo_world))))
       \<noteq> []
   \<and> filter isScanInput
        (new_events demo_world (snd (snd (ScanFS demo_env 0 (HostFS 3) ''.'' (NewScanner []) demo_world))))
       \<noteq> []
   \<and> fst (ScanFS demo_env 0 (HostFS 3) ''.'' (NewScanner [ScannerWithPolicyDirs [''bad'']]) demo_world)
       = Inl (Error ''load'')"
proof -
  let ?s = "NewScanner []" and ?b = "NewScanner [ScannerWithPolicyDirs [''bad'']]"
  let ?w1 = "parsed_world 0 (HostFS 3) ''.'' ?s demo_world"
  let ?wb = "parsed_world 0 (HostFS 3) ''.'' ?b demo_world"
  have ne: "[(''e.yaml'', [])] \<noteq> ([] :: (string \<times> Document list) list)" by simp
  have fields: "loadEmbedded ?s = False" "policyDirs ?s = []" "policyReaders ?s = []"
    by (simp_all add: NewScanner_def zeroScanner_def)
  have "loadPolicies demo_env False (HostFS 3) [] [] = None"
    by (simp add: demo_env_def)
  with fields have i: "initRegoScanner demo_env (HostFS 3) ?s ?w1
      = (Inr (loaded_engine (HostFS 3) ?s ?w1), ?s\<lparr>regoScanner := Some (loaded_engine (HostFS 3) ?s ?w1)\<rparr>,
         after_construction (HostFS 3) ?s ?w1)"
    by (simp add: initRegoScanner_fresh [OF regoScanner_NewScanner])
  have sc: "scanInput demo_env r 0 inputs = Inr (map demo_finding inputs)" for r inputs
    by (simp add: demo_env_def)
  have 1: "regoScanner (fst (snd (ScanFS demo_env 0 (HostFS 3) ''.'' ?s demo_world))) \<noteq> None"
    unfolding ScanFS_nonempty [OF demo_parse_3 ne] i by (simp add: sc)
  have 2: "filter isLoadPolicies
      (new_events demo_world (snd (snd (ScanFS demo_env 0 (HostFS 3) ''.'' ?s demo_world)))) \<noteq> []"
    unfolding ScanFS_nonempty_events [OF demo_parse_3 ne]
    by (simp add: regoScanner_NewScanner construction_events_def)
  have 3: "filter isScanInput
      (new_events demo_world (snd (snd (ScanFS demo_env 0 (HostFS 3) ''.'' ?s demo_world)))) \<noteq> []"
    unfolding ScanFS_nonempty_events [OF demo_parse_3 ne]
    by (simp add: i evaluation_events_def)
  have fb: "loadEmbedded ?b = False" "policyDirs ?b = [''bad'']" "policyReaders ?b = []"
    by (simp_all add: NewScanner_def zeroScanner_def SetPolicyDirs_def)
  have "loadPolicies demo_env False (HostFS 3) [''bad''] [] = Some (Error ''load'')"
    by (simp add: demo_env_def)
  with fb have ib: "initRegoScanner demo_env (HostFS 3) ?b ?wb
      = (Inl (Error ''load''), ?b, after_construction (HostFS 3) ?b ?wb)"
    by (simp add: initRegoScanner_fresh [OF regoScanner_NewScanner])
  have 4: "fst (ScanFS demo_env 0 (HostFS 3) ''.'' ?b demo_world) = Inl (Error ''load'')"
    unfolding ScanFS_nonempty [OF demo_parse_3 ne] ib by simp
  from demo_parse_3 regoScanner_NewScanner 1 2 3 4 show ?thesis
    by (intro conjI)
qed

section \<open>The stream entry point\<close>

lemma single_file_fs_success:
  assumes "single_file_fs env filename data = Inr memfs"
  shows "memfs = MemFS [OpMkdirAll (filepath_Base env filename) 448, OpWriteFile filename data 420]"
  using assms
  by (auto simp: single_file_fs_def MkdirAll_def WriteFile_def memoryfs_New_def
      split: option.splits)

lemma ScanReader_read_error:
  assumes "io_ReadAll reader = Inl err"
  shows "\<exists>e. ScanReader env ctx filename reader s w = (Inl e, s, w)"
  using assms by (simp add: ScanReader_def split: sum.splits)

lemma ScanReader_read:
  assumes "io_ReadAll reader = Inr data"
  shows "ScanReader env ctx filename reader s w =
     (case single_file_fs env filename data of
        Inl err \<Rightarrow> (Inl err, s, w)
      | Inr memfs \<Rightarrow> ScanFS env ctx memfs ''.'' s w)"
  using assms by (simp add: ScanReader_def single_file_fs_def split: sum.splits)

text \<open>
  Claim C8. For every file name and byte stream: when reading the stream fails,
  \<^verbatim>\<open>ScanReader\<close> returns no result and an error, with scanner and world unchanged;
  when the stream is read and the in-memory filesystem cannot be constructed (the
  directory or the file cannot be made), it returns no result and that error; otherwise
  the filesystem is the in-memory one holding the bytes of the stream at the file name,
  and \<^verbatim>\<open>ScanReader\<close> returns exactly what \<^verbatim>\<open>ScanFS\<close> returns on that filesystem
  from the directory \<^verbatim>\<open>.\<close>, the findings among it. Once the stream is read, the
  source's order of the steps and the specification's give the same outcome.
\<close>

theorem ScanReader_delegates:
  "(io_ReadAll reader = Inl err \<longrightarrow> (\<exists>e. ScanReader env ctx filename reader s w = (Inl e, s, w)))
   \<and> (io_ReadAll reader = Inr data \<and> single_file_fs env filename data = Inl err \<longrightarrow>
        ScanReader env ctx filename reader s w = (Inl err, s, w))
   \<and> (io_ReadAll reader = Inr data \<and> single_file_fs env filename data = Inr memfs \<longrightarrow>
        memfs = MemFS [OpMkdirAll (filepath_Base env filename) 448, OpWriteFile filename data 420]
        \<and> ScanReader env ctx filename reader s w = ScanFS env ctx memfs ''.'' s w)
   \<and> (io_ReadAll reader = Inr data \<longrightarrow>
        ScanReader env ctx filename reader s w = scanFromStream_spec env ctx filename reader s w)"
proof (intro conjI impI)
  assume "io_ReadAll reader = Inl err"
  then show "\<exists>e. ScanReader env ctx filename reader s w = (Inl e, s, w)"
    by (rule ScanReader_read_error)
next
  assume "io_ReadAll reader = Inr data \<and> single_file_fs env filename data = Inl err"
  then show "ScanReader env ctx filename reader s w = (Inl err, s, w)"
    by (simp add: ScanReader_read)
next
  assume "io_ReadAll reader = Inr data \<and> single_file_fs env filename data = Inr memfs"
  then show "memfs = MemFS [OpMkdirAll (filepath_Base env filename) 448, OpWriteFile filename data 420]"
    by (simp add: single_file_fs_success)
next
  assume "io_ReadAll reader = Inr data \<and> single_file_fs env filename data = Inr memfs"
  then show "ScanReader env ctx filename reader s w = ScanFS env ctx memfs ''.'' s w"
    by (simp add: ScanReader_read)
next
  assume "io_ReadAll reader = Inr data"
  then show "ScanReader env ctx filename reader s w = scanFromStream_spec env ctx filename reader s w"
    by (simp add: ScanReader_read scanFromStream_spec_def)
qed

theorem ScanReader_delegates_witness:
  "io_ReadAll (BytesReader ''pod'') = Inr ''pod''
   \<and> single_file_fs demo_env ''x.yaml'' ''pod'' = Inr demo_memfs
   \<and> ScanReader demo_env 0 ''x.yaml'' (BytesReader ''pod'') (NewScanner []) demo_world
       = ScanFS demo_env 0 demo_memfs ''.'' (NewScanner []) demo_world
   \<and> io_ReadAll (FailingReader (Error ''read'')) = Inl (Error ''read'')
   \<and> (\<exists>e. ScanReader demo_env 0 ''x.yaml'' (FailingReader (Error ''read'')) (NewScanner []) demo_world
          = (Inl e, NewScanner [], demo_world))
   \<and> single_file_fs demo_env [] ''pod'' = Inl (Error ''mkdir'')
   \<and> ScanReader demo_env 0 [] (BytesReader ''pod'') (NewScanner []) demo_world
       = (Inl (Error ''mkdir''), NewScanner [], demo_world)"
proof -
  have r: "io_ReadAll (BytesReader ''pod'') = Inr ''pod''" by simp
  have f: "single_file_fs demo_env ''x.yaml'' ''pod'' = Inr demo_memfs"
    by (simp add: single_file_fs_def MkdirAll_def WriteFile_def memoryfs_New_def demo_env_def
        demo_memfs_def)
  have rf: "io_ReadAll (FailingReader (Error ''read'')) = Inl (Error ''read'')" by simp
  have m: "single_file_fs demo_env [] ''pod'' = Inl (Error ''mkdir'')"
    by (simp add: single_file_fs_def MkdirAll_def memoryfs_New_def demo_env_def)
  note T1 = ScanReader_delegates [of "BytesReader ''pod''" "Error ''mkdir''" demo_env 0 "''x.yaml''"
      "NewScanner []" demo_world "''pod''" demo_memfs]
  note T2 = ScanReader_delegates [of "FailingReader (Error ''read'')" "Error ''read''" demo_env 0
      "''x.yaml''" "NewScanner []" demo_world "''pod''" demo_memfs]
  note T3 = ScanReader_delegates [of "BytesReader ''pod''" "Error ''mkdir''" demo_env 0 "[]"
      "NewScanner []" demo_world "''pod''" demo_memfs]
  note a = T1 [THEN conjunct2, THEN conjunct2, THEN conjunct1, THEN mp, OF conjI [OF r f], THEN conjunct2]
  note b = T2 [THEN conjunct1, THEN mp, OF rf]
  note c = T3 [THEN conjunct2, THEN conjunct1, THEN mp, OF conjI [OF r m]]
  from r f a rf b m c show ?thesis
    by (intro conjI)
qed

section \<open>The parser of a scanner\<close>

lemma parser_apply_option: "parser (apply_option opt s) = parser s"
  by (cases opt) (simp_all add: setter_defs)

lemma skipRequired_apply_option:
  "skip_of_options (skipRequired (apply_option opt s)) opts = skip_of_options (skipRequired s) (opt # opts)"
  by (cases opt) (simp_all add: setter_defs)

lemma skipRequired_foldl:
  "skipRequired (foldl (\<lambda>s opt. apply_option opt s) s opts) = skip_of_options (skipRequired s) opts"
  by (induction opts arbitrary: s) (simp_all add: skipRequired_apply_option)

lemma parser_initRegoScanner: "parser (fst (snd (initRegoScanner env f s w))) = parser s"
  by (cases "regoScanner s")
    (simp_all add: initRegoScanner_fresh initRegoScanner_cached split: option.splits)

lemma parser_ScanFS: "parser (fst (snd (ScanFS env ctx f dir s w))) = parser s"
proof (cases "parseFS env (parser s) ctx f dir")
  case (Inl err)
  then show ?thesis by (simp add: ScanFS_def)
next
  case (Inr m)
  show ?thesis
  proof (cases "m = []")
    case True
    with Inr show ?thesis by (simp add: ScanFS_def)
  next
    case False
    obtain eng s2 w2 where i: "initRegoScanner env f s (parsed_world ctx f dir s w) = (eng, s2, w2)"
      by (cases "initRegoScanner env f s (parsed_world ctx f dir s w)")
    then have "parser s2 = parser s"
      using parser_initRegoScanner [of env f s "parsed_world ctx f dir s w"] by simp
    then show ?thesis
      unfolding ScanFS_nonempty [OF Inr False] i by (simp split: sum.splits)
  qed
qed

lemma parser_ScanReader: "parser (fst (snd (ScanReader env ctx filename reader s w))) = parser s"
  by (simp add: ScanReader_def parser_ScanFS split: sum.splits)

lemma parser_run_call:
  assumes "run_call (s, w) call = (s', w')"
  shows "parser s' = parser s"
proof (cases call)
  case (Pair env c)
  show ?thesis
  proof (cases c)
    case (CallSetter opt)
    with Pair assms show ?thesis by (auto simp: parser_apply_option)
  next
    case (CallInitRegoScanner f)
    with Pair assms parser_initRegoScanner [of env f s w] show ?thesis by auto
  next
    case (CallScanFS ctx f dir)
    with Pair assms parser_ScanFS [of env ctx f dir s w] show ?thesis by auto
  next
    case (CallScanReader ctx filename reader)
    with Pair assms parser_ScanReader [of env ctx filename reader s w] show ?thesis by auto
  qed
qed

lemma parser_run_calls:
  assumes "run_calls calls (s, w) = (s', w')"
  shows "parser s' = parser s"
  using assms
proof (induction calls arbitrary: s w)
  case Nil
  then show ?case by (simp add: run_calls_def)
next
  case (Cons c calls)
  obtain s1 w1 where step: "run_call (s, w) c = (s1, w1)"
    by (cases "run_call (s, w) c")
  from Cons.prems step have "run_calls calls (s1, w1) = (s', w')"
    by (simp add: run_calls_def)
  from Cons.IH [OF this] parser_run_call [OF step] show ?case by simp
qed

lemma initRegoScanner_skipRequired:
  "initRegoScanner env f (s\<lparr>skipRequired := b\<rparr>) w =
     (case initRegoScanner env f s w of (res, s', w') \<Rightarrow> (res, s'\<lparr>skipRequired := b\<rparr>, w'))"
  by (simp add: initRegoScanner_def rego_NewScanner_def SetParentDebugLogger_def LoadPolicies_def
      split: option.splits)

lemma ScanFS_skipRequired:
  "ScanFS env ctx f dir (s\<lparr>skipRequired := b\<rparr>) w =
     (case ScanFS env ctx f dir s w of (res, s', w') \<Rightarrow> (res, s'\<lparr>skipRequired := b\<rparr>, w'))"
  by (simp add: ScanFS_def initRegoScanner_skipRequired Let_def split: sum.splits prod.splits)

lemma ScanReader_skipRequired:
  "ScanReader env ctx filename reader (s\<lparr>skipRequired := b\<rparr>) w =
     (case ScanReader env ctx filename reader s w of (res, s', w') \<Rightarrow> (res, s'\<lparr>skipRequired := b\<rparr>, w'))"
  by (simp add: ScanReader_def ScanFS_skipRequired split: sum.splits)

text \<open>
  Claim C10. \<^verbatim>\<open>NewScanner\<close> constructs the parser with the skip-required-check flag
  that the construction options set (that of the last option setting it,
  \<^verbatim>\<open>false\<close> without one). \<^verbatim>\<open>SetSkipRequiredCheck\<close> changes the field
  \<^verbatim>\<open>skipRequired\<close> of the scanner and nothing else: the parser is the same, and a
  scan through either entry point after the setter returns the same result and leaves
  the same world as without it, the scanners after the scan differing in that field
  only. No later call on the scanner (setter, engine initialisation, scan) replaces the
  parser.
\<close>

theorem NewScanner_fixes_parser:
  "parser (NewScanner opts) = Some (parser_New [ParserWithSkipRequiredCheck (skip_of_options False opts)])
   \<and> skipRequired (NewScanner opts) = skip_of_options False opts
   \<and> SetSkipRequiredCheck skip s = s\<lparr>skipRequired := skip\<rparr>
   \<and> parser (SetSkipRequiredCheck skip s) = parser s
   \<and> ScanFS env ctx target dir (SetSkipRequiredCheck skip s) w
       = (case ScanFS env ctx target dir s w of (res, s', w') \<Rightarrow> (res, SetSkipRequiredCheck skip s', w'))
   \<and> ScanReader env ctx filename reader (SetSkipRequiredCheck skip s) w
       = (case ScanReader env ctx filename reader s w of
            (res, s', w') \<Rightarrow> (res, SetSkipRequiredCheck skip s', w'))
   \<and> (run_calls calls (s, w) = (s', w') \<longrightarrow> parser s' = parser s)"
proof -
  have 1: "skipRequired (NewScanner opts) = skip_of_options False opts"
    by (simp add: NewScanner_def Let_def skipRequired_foldl zeroScanner_def)
  have 2: "parser (NewScanner opts)
      = Some (parser_New [ParserWithSkipRequiredCheck (skip_of_options False opts)])"
    by (simp add: NewScanner_def Let_def skipRequired_foldl zeroScanner_def)
  have 3: "ScanFS env ctx target dir (SetSkipRequiredCheck skip s) w
       = (case ScanFS env ctx target dir s w of (res, s', w') \<Rightarrow> (res, SetSkipRequiredCheck skip s', w'))"
    by (simp add: SetSkipRequiredCheck_def ScanFS_skipRequired)
  have 4: "ScanReader env ctx filename reader (SetSkipRequiredCheck skip s) w
       = (case ScanReader env ctx filename reader s w of
            (res, s', w') \<Rightarrow> (res, SetSkipRequiredCheck skip s', w'))"
    by (simp add: SetSkipRequiredCheck_def ScanReader_skipRequired)
  have 5: "run_calls calls (s, w) = (s', w') \<longrightarrow> parser s' = parser s"
    by (auto dest: parser_run_calls)
  from 1 2 3 4 5 show ?thesis
    by (simp add: SetSkipRequiredCheck_def)
qed

theorem NewScanner_fixes_parser_witness:
  "parser (NewScanner [ScannerWithSkipRequiredCheck True])
     = Some (parser_New [ParserWithSkipRequiredCheck True])
   \<and> skipRequired (SetSkipRequiredCheck False (NewScanner [ScannerWithSkipRequiredCheck True])) = False
   \<and> parser (SetSkipRequiredCheck False (NewScanner [ScannerWithSkipRequiredCheck True]))
       = Some (parser_New [ParserWithSkipRequiredCheck True])
   \<and> parser (fst (run_calls skip_calls (NewScanner [ScannerWithSkipRequiredCheck True], demo_world)))
       = Some (parser_New [ParserWithSkipRequiredCheck True])"
proof -
  let ?s = "NewScanner [ScannerWithSkipRequiredCheck True]"
  let ?sw = "run_calls skip_calls (?s, demo_world)"
  have h: "run_calls skip_calls (?s, demo_world) = (fst ?sw, snd ?sw)" by simp
  note T = NewScanner_fixes_parser [of "[ScannerWithSkipRequiredCheck True]" False ?s demo_env 0
      "HostFS 1" "''.''" demo_world "''x.yaml''" "BytesReader ''pod''" skip_calls "fst ?sw" "snd ?sw"]
  have p: "parser ?s = Some (parser_New [ParserWithSkipRequiredCheck True])"
    using T [THEN conjunct1] by simp
  have k: "skipRequired (SetSkipRequiredCheck False ?s) = False"
    using T [THEN conjunct2, THEN conjunct2, THEN conjunct1] by simp
  have q: "parser (SetSkipRequiredCheck False ?s) = Some (parser_New [ParserWithSkipRequiredCheck True])"
    using T [THEN conjunct2, THEN conjunct2, THEN conjunct2, THEN conjunct1] p by simp
  have r: "parser (fst ?sw) = Some (parser_New [ParserWithSkipRequiredCheck True])"
    using T [THEN conjunct2, THEN conjunct2, THEN conjunct2, THEN conjunct2, THEN conjunct2,
        THEN conjunct2, THEN mp, OF h] p by simp
  from p k q r show ?thesis
    by (intro conjI)
qed

end
